theory Spec2Isabelle
  imports Main "HOL-Library.Multiset" "HOL-Library.Word"
begin

section \<open>Sequences of package iter\<close>

text \<open>
  The Go type is \<^verbatim>\<open>type Seq[V any] func(yield func(V) bool) bool\<close>. A yield callback
  is a closure with effects on the variables it captured, so it is modelled as a function
  that takes the consumer's state and returns its answer with the new state. A sequence
  takes such a callback and the state, runs, and returns its own answer (true: ran to the
  end, false: stopped early) with the state the callback left.

  A combinator that keeps a variable of its own during a run (\<^verbatim>\<open>took\<close>,
  \<^verbatim>\<open>skipped\<close>, \<^verbatim>\<open>chunk\<close>) pairs it with the consumer's state for the time of the
  run; the callback it hands upstream works on the pair.

  Go's \<^verbatim>\<open>int\<close> is a two's complement integer of \<open>w\<close> bits, \<open>w\<close> being 32 or 64 by
  target, and \<^verbatim>\<open>++\<close> wraps. In \<^verbatim>\<open>Take\<close> and \<^verbatim>\<open>Chunked\<close> the counter is compared with
  \<open>n\<close> before every increment and never passes it, so no increment wraps and the counter
  is an \<open>int\<close>. In \<^verbatim>\<open>Skip\<close> the counter is incremented on every element for which it differs
  from \<open>n\<close>, so with a negative \<open>n\<close> it runs as far as the upstream does and wraps: there
  the counter and \<open>n\<close> are words of \<open>w\<close> bits.
\<close>

type_synonym ('v, 's) yield = "'v \<Rightarrow> 's \<Rightarrow> bool \<times> 's"

type_synonym ('v, 's) Seq = "('v, 's) yield \<Rightarrow> 's \<Rightarrow> bool \<times> 's"

text \<open>
  The value a \<^verbatim>\<open>panic\<close> carries: which check failed, and the number given. The first
  two are the checks of iter.go, the third is the runtime's check in \<^verbatim>\<open>make\<close>.
\<close>

datatype panic = TakeSizeNegative int | ChunkSizeNotPositive int | MakesliceCapOutOfRange int


subsection \<open>Collaborators that live outside iter.go\<close>

text \<open>
  Modelled from the spec: \<^verbatim>\<open>FromMany\<close>, the helper that turns a slice into a sequence
  (iter.go calls it in \<^verbatim>\<open>Paged\<close>; its body is in another file of the repository). It
  yields the elements in order, stops as soon as yield answers false and then returns
  false, and returns true when the slice is exhausted (spec, section 3: a sequence returns
  true if it exhausted its values without early termination, and never calls yield after
  yield has returned false). The example iterator of the README, \<^verbatim>\<open>Range\<close>, is written
  the same way: \<^verbatim>\<open>for ... { if !yield(i) { return false } }; return true\<close>.
\<close>

fun FromMany :: "'v list \<Rightarrow> ('v, 's) Seq" where
  "FromMany [] yield s = (True, s)"
| "FromMany (x # xs) yield s =
     (case yield x s of (continue, s') \<Rightarrow>
        if \<not> continue then (False, s') else FromMany xs yield s')"

text \<open>
  Modelled from the spec: \<^verbatim>\<open>ToSlice\<close>, the terminal consumer that fully drains a
  sequence into a slice (spec, section 4.1). Its callback appends the element and answers
  true.
\<close>

definition ToSlice :: "('v, 'v list) Seq \<Rightarrow> 'v list" where
  "ToSlice xs = snd (xs (\<lambda>a slice. (True, slice @ [a])) [])"


subsection \<open>Take\<close>

text \<open>
  \<^verbatim>\<open>
  func Take[V any](xs Seq[V], n int) Seq[V] {
      if n < 0 { panic(...) }
      return func(yield func(V) bool) bool {
          took := 0
          return xs(func(v V) bool {
              if took == n { return false }
              took++
              return yield(v)
          })
      }
  }
  \<close>
\<close>

definition Take :: "('v, int \<times> 's) Seq \<Rightarrow> int \<Rightarrow> panic + ('v, 's) Seq" where
  "Take xs n =
     (if n < 0 then Inl (TakeSizeNegative n)
      else Inr (\<lambda>yield s.
        case xs (\<lambda>v (took, s).
                   if took = n then (False, (took, s))
                   else (case yield v s of (r, s') \<Rightarrow> (r, (took + 1, s'))))
                (0, s)
        of (r, (took, s')) \<Rightarrow> (r, s')))"

subsection \<open>Concat\<close>

text \<open>
  \<^verbatim>\<open>
  func Concat[V any](seqs ...Seq[V]) Seq[V] {
      return func(yield func(V) bool) bool {
          for _, seq := range seqs {
              if !seq(yield) { return false }
          }
          return true
      }
  }
  \<close>
\<close>

fun Concat :: "('v, 's) Seq list \<Rightarrow> ('v, 's) Seq" where
  "Concat [] yield s = (True, s)"
| "Concat (seq # seqs) yield s =
     (case seq yield s of (r, s') \<Rightarrow> if \<not> r then (False, s') else Concat seqs yield s')"

subsection \<open>Skip\<close>

text \<open>
  \<^verbatim>\<open>
  func Skip[A any](xs Seq[A], n int) Seq[A] {
      return func(yield func(A) bool) bool {
          skipped := 0
          return xs(func(a A) bool {
              if skipped == n { return yield(a) }
              skipped++
              return true
          })
      }
  }
  \<close>
  There is no check of \<open>n\<close>: \<^verbatim>\<open>Skip\<close> cannot panic, so it returns the sequence itself.
  \<^verbatim>\<open>skipped\<close> and \<open>n\<close> are Go \<^verbatim>\<open>int\<close>s of \<open>w\<close> bits: \<open>skipped + 1\<close> wraps, and \<open>n\<close> is
  negative when \<open>n <s 0\<close>.
\<close>

definition Skip :: "('a, 'w word \<times> 's) Seq \<Rightarrow> 'w::len word \<Rightarrow> ('a, 's) Seq" where
  "Skip xs n =
     (\<lambda>yield s.
        case xs (\<lambda>a (skipped, s).
                   if skipped = n then (case yield a s of (r, s') \<Rightarrow> (r, (skipped, s')))
                   else (True, (skipped + 1, s)))
                (0, s)
        of (r, (skipped, s')) \<Rightarrow> (r, s'))"

subsection \<open>Map, Filter, MapFilter\<close>

text \<open>
  \<^verbatim>\<open>
  func Map[I, O any](seq Seq[I], f func(I) O) Seq[O] {
      return func(yield func(O) bool) bool {
          return seq(func(a I) bool { return yield(f(a)) })
      }
  }
  func Filter[V any](seq Seq[V], p func(V) bool) Seq[V] {
      return func(yield func(V) bool) bool {
          return seq(func(a V) bool {
              if p(a) && !yield(a) { return false }
              return true
          })
      }
  }
  \<close>
\<close>

definition Map :: "('i, 's) Seq \<Rightarrow> ('i \<Rightarrow> 'o) \<Rightarrow> ('o, 's) Seq" where
  "Map seq f = (\<lambda>yield. seq (\<lambda>a. yield (f a)))"

definition Filter :: "('v, 's) Seq \<Rightarrow> ('v \<Rightarrow> bool) \<Rightarrow> ('v, 's) Seq" where
  "Filter seq p =
     (\<lambda>yield. seq (\<lambda>a s.
        if p a then (case yield a s of (r, s') \<Rightarrow> if \<not> r then (False, s') else (True, s'))
        else (True, s)))"

text \<open>
  \<^verbatim>\<open>
  func MapFilter[I, O any](seq Seq[I], f func(I) (O, bool)) Seq[O] {
      return func(yield func(O) bool) bool {
          return seq(func(a I) bool {
              if b, ok := f(a); ok { return yield(b) }
              return true
          })
      }
  }
  \<close>
  The pair \<^verbatim>\<open>(b, ok)\<close> is an option. \<^verbatim>\<open>Unique\<close> passes a closure that writes to a
  variable it captured, so \<open>f\<close> works on the state as a yield callback does.
\<close>

definition MapFilter :: "('i, 's) Seq \<Rightarrow> ('i \<Rightarrow> 's \<Rightarrow> 'o option \<times> 's) \<Rightarrow> ('o, 's) Seq" where
  "MapFilter seq f =
     (\<lambda>yield. seq (\<lambda>a s.
        case f a s of
          (Some b, s') \<Rightarrow> yield b s'
        | (None, s') \<Rightarrow> (True, s')))"

subsection \<open>TakeWhile\<close>

text \<open>
  \<^verbatim>\<open>
  func TakeWhile[A any](xs Seq[A], p func(A) bool) Seq[A] {
      return func(yield func(A) bool) bool {
          return xs(func(a A) bool {
              if !p(a) { return false }
              yield(a)
              return true
          })
      }
  }
  \<close>
  The answer of \<^verbatim>\<open>yield(a)\<close> is dropped; only its effect on the state stays.
\<close>

definition TakeWhile :: "('a, 's) Seq \<Rightarrow> ('a \<Rightarrow> bool) \<Rightarrow> ('a, 's) Seq" where
  "TakeWhile xs p =
     (\<lambda>yield. xs (\<lambda>a s.
        if \<not> p a then (False, s)
        else (case yield a s of (r, s') \<Rightarrow> (True, s'))))"

subsection \<open>Chunked\<close>


subsection \<open>Unique\<close>

text \<open>
  \<^verbatim>\<open>
  func Unique[A comparable](xs Seq[A]) Seq[A] {
      seen := set.New[A](0)
      var a A
      return MapFilter(xs, func(x A) (A, bool) {
          if seen.Contains(x) { return a, false }
          seen.Add(x)
          return x, true
      })
  }
  \<close>
  The set \<^verbatim>\<open>seen\<close> is made when \<^verbatim>\<open>Unique\<close> is called, before the sequence is
  returned, and it is not made again when the sequence runs: it belongs to the sequence
  value, not to one run. So \<open>Unique\<close> returns the first content of \<^verbatim>\<open>seen\<close> together
  with the sequence, and a run of the sequence takes the content of \<^verbatim>\<open>seen\<close> as it is
  and returns it as the run left it. \<^verbatim>\<open>set.Set\<close> is the collaborator of spec section 6
  (\<^verbatim>\<open>Contains\<close>, \<^verbatim>\<open>Add\<close>): a set.
\<close>

type_synonym ('v, 'c, 's) Closure = "('v, 's) yield \<Rightarrow> 'c \<times> 's \<Rightarrow> bool \<times> 'c \<times> 's"

definition Unique :: "('a, 'a set \<times> 's) Seq \<Rightarrow> 'a set \<times> ('a, 'a set, 's) Closure" where
  "Unique xs =
     ({},
      \<lambda>yield.
        MapFilter xs
          (\<lambda>x (seen, s).
             if x \<in> seen then (None, (seen, s))
             else (Some x, (insert x seen, s)))
          (\<lambda>b (seen, s). case yield b s of (r, s') \<Rightarrow> (r, (seen, s'))))"

text \<open>
  \<^verbatim>\<open>ToSlice\<close> on a sequence value that owns a captured variable: the slice, and the
  content of the variable after the run.
\<close>

definition ToSlice_of :: "('v, 'c, 'v list) Closure \<Rightarrow> 'c \<Rightarrow> 'v list \<times> 'c" where
  "ToSlice_of run c =
     (case run (\<lambda>a slice. (True, slice @ [a])) (c, []) of (r, (c', out)) \<Rightarrow> (out, c'))"

subsection \<open>Pull, MergeFunc, Merge\<close>










section \<open>Observers and reference functions\<close>

subsection \<open>What a consumer has received\<close>

text \<open>
  The state of a consumer after it was handed the elements \<open>vs\<close> one by one, whatever it
  answered.
\<close>

definition fed :: "('v, 's) yield \<Rightarrow> 'v list \<Rightarrow> 's \<Rightarrow> 's" where
  "fed yield vs s = fold (\<lambda>v s. snd (yield v s)) vs s"

subsection \<open>Watching the upstream of Map and Filter\<close>

text \<open>
  \<open>Tap\<close> stands between a source and its consumer, as \<^verbatim>\<open>DebugSeq\<close> does: it writes
  every element the source hands over to a log, then passes it on. \<open>aside\<close> lets a
  consumer run next to the log without touching it. \<open>stop_after k\<close> is the consumer that
  keeps what it gets and answers false when it has got \<open>k\<close> elements.
\<close>

definition Tap :: "('v, 'v list \<times> 's) Seq \<Rightarrow> ('v, 'v list \<times> 's) Seq" where
  "Tap xs = (\<lambda>yield. xs (\<lambda>a (produced, s). yield a (produced @ [a], s)))"

definition aside :: "('v, 's) yield \<Rightarrow> ('v, 'l \<times> 's) yield" where
  "aside yield = (\<lambda>v (l, s). case yield v s of (r, s') \<Rightarrow> (r, (l, s')))"

definition stop_after :: "nat \<Rightarrow> ('v, 'v list) yield" where
  "stop_after k = (\<lambda>v got. (length got + 1 < k, got @ [v]))"

text \<open>
  The shortest prefix of \<open>vs\<close> that holds \<open>k\<close> elements accepted by \<open>p\<close>; all of \<open>vs\<close>
  when it holds fewer.
\<close>

fun upto_kth :: "('v \<Rightarrow> bool) \<Rightarrow> nat \<Rightarrow> 'v list \<Rightarrow> 'v list" where
  "upto_kth p k [] = []"
| "upto_kth p k (v # vs) =
     (if k = 0 then [] else v # upto_kth p (if p v then k - 1 else k) vs)"

subsection \<open>Reference function for Unique\<close>

text \<open>
  The elements of \<open>vs\<close> that are not in \<open>seen\<close> and did not occur earlier in \<open>vs\<close>, in
  the order of \<open>vs\<close>.
\<close>

fun unseen :: "'a set \<Rightarrow> 'a list \<Rightarrow> 'a list" where
  "unseen seen [] = []"
| "unseen seen (v # vs) = (if v \<in> seen then unseen seen vs else v # unseen (insert v seen) vs)"

subsection \<open>Reference functions for MergeFunc\<close>




section \<open>Lemmas on the observers\<close>

lemma fed_Nil: "fed yield [] s = s"
  by (simp add: fed_def)

lemma fed_Cons: "fed yield (v # vs) s = fed yield vs (snd (yield v s))"
  by (simp add: fed_def)

lemma fed_collect: "fed (\<lambda>a slice. (True, slice @ [a])) vs acc = acc @ vs"
  by (induction vs arbitrary: acc) (simp_all add: fed_Nil fed_Cons)

section \<open>Take\<close>

lemma Take_callback_run:
  assumes "\<And>v s. fst (yield v s)"
  shows "0 \<le> took \<Longrightarrow> took \<le> n \<Longrightarrow>
    FromMany vs (\<lambda>v (took, s).
                   if took = n then (False, (took, s))
                   else (case yield v s of (r, s') \<Rightarrow> (r, (took + 1, s'))))
                (took, s)
    = (int (length vs) \<le> n - took,
       (took + int (min (nat (n - took)) (length vs)), fed yield (take (nat (n - took)) vs) s))"
proof (induction vs arbitrary: took s)
  case Nil
  then show ?case by (simp add: fed_Nil)
next
  case (Cons v vs)
  show ?case
  proof (cases "took = n")
    case True
    then show ?thesis by (simp add: fed_Nil)
  next
    case False
    obtain r s' where y: "yield v s = (r, s')" by (cases "yield v s")
    with assms [of v s] have r: "r" by simp
    from False Cons.prems have lt: "took < n" by simp
    then have n: "nat (n - took) = Suc (nat (n - (took + 1)))" by simp
    have "0 \<le> took + 1" "took + 1 \<le> n" using Cons.prems lt by simp_all
    from Cons.IH [OF this, of s'] False y r show ?thesis
      by (auto simp: n fed_Cons)
  qed
qed

text \<open>
  C6. For every slice \<open>vs\<close> and every \<open>n \<ge> 0\<close>, \<^verbatim>\<open>Take(FromMany(vs...), n)\<close> is a
  sequence whose elements are the first \<open>min n (length vs)\<close> elements of \<open>vs\<close> (none for
  \<open>n = 0\<close>); and \<^verbatim>\<open>Take(xs, n)\<close> panics exactly when \<open>n\<close> is negative, whatever \<open>xs\<close> is.
\<close>

theorem Take_first_elements:
  "(0 \<le> n \<longrightarrow>
      (\<exists>t. Take (FromMany vs) n = Inr t
          \<and> ToSlice t = take (nat n) vs
          \<and> length (ToSlice t) = min (nat n) (length vs)))
   \<and> ((\<exists>e. Take xs n = Inl e) \<longleftrightarrow> n < 0)"
proof -
  have "ToSlice (\<lambda>yield s.
        case FromMany vs (\<lambda>v (took, s).
                   if took = n then (False, (took, s))
                   else (case yield v s of (r, s') \<Rightarrow> (r, (took + 1, s'))))
                (0, s)
        of (r, (took, s')) \<Rightarrow> (r, s')) = take (nat n) vs" if "0 \<le> n"
    unfolding ToSlice_def
    using Take_callback_run [of "\<lambda>a slice. (True, slice @ [a])" 0 n vs "[]"] that
    by (simp add: fed_collect)
  then show ?thesis
    by (auto simp: Take_def)
qed

theorem Take_first_elements_witness:
  "(0::int) \<le> 2 \<and> (\<exists>t. Take (FromMany [10, 20, 30 :: int]) 2 = Inr t \<and> ToSlice t = [10, 20])
   \<and> (\<exists>e. Take (FromMany [10, 20, 30 :: int] :: (int, int \<times> int list) Seq) (- 1) = Inl e)"
  using Take_first_elements [of 2 "[10, 20, 30 :: int]"]
    Take_first_elements [of "- 1" "[]" "FromMany [10, 20, 30 :: int] :: (int, int \<times> int list) Seq"]
  by auto

text \<open>
  C10, as stated, at a concrete input. \<open>s\<close> is \<^verbatim>\<open>Take(FromMany(1, 2, 3), 2)\<close>, a finite
  sequence with the two elements 1 and 2 whose run answers false, and \<open>n\<close> is 5. The
  consumer never stops and \<open>s\<close> has at most \<open>n\<close> elements, yet the run of \<^verbatim>\<open>Take(s, 5)\<close>
  returns false: it returns what the run of \<open>s\<close> answers.
\<close>

theorem Take_run_answer_counterexample:
  "(case Take (FromMany [1, 2, 3 :: int]) 2 of
      Inl e \<Rightarrow> None | Inr s \<Rightarrow> Some (ToSlice s)) = Some [1, 2]
   \<and> (case Take (FromMany [1, 2, 3 :: int]) 2 of
        Inl e \<Rightarrow> None
      | Inr s \<Rightarrow> (case Take s 5 of
                   Inl e \<Rightarrow> None
                 | Inr t \<Rightarrow> Some (t (\<lambda>a slice. (True, slice @ [a])) []))) = Some (False, [1, 2])"
  by (simp add: Take_def ToSlice_def)

text \<open>
  C10, amended: the sequence is a slice, which answers true at its end. For every slice
  \<open>vs\<close>, every \<open>n \<ge> 0\<close> and every consumer that always answers true:
  the run of \<^verbatim>\<open>Take(FromMany(vs...), n)\<close> hands the consumer the first \<open>n\<close> elements and
  returns false when \<open>vs\<close> has more than \<open>n\<close> elements, true when it has at most \<open>n\<close>.
\<close>

theorem Take_run_answer:
  assumes "0 \<le> n" and "\<forall>v s. fst (yield v s)"
  shows "\<exists>t. Take (FromMany vs) n = Inr t
           \<and> fst (t yield s) = (int (length vs) \<le> n)
           \<and> snd (t yield s) = fed yield (take (nat n) vs) s"
  using assms Take_callback_run [of yield 0 n vs s]
  by (simp add: Take_def)

theorem Take_run_answer_witness:
  "(0::int) \<le> 2 \<and> (\<forall>v s. fst ((\<lambda>a slice. (True, slice @ [a])) (v::int) s))
   \<and> (\<exists>t. Take (FromMany [10, 20, 30 :: int]) 2 = Inr t
          \<and> fst (t (\<lambda>a slice. (True, slice @ [a])) []) = False
          \<and> snd (t (\<lambda>a slice. (True, slice @ [a])) []) = [10, 20])
   \<and> (\<exists>t. Take (FromMany [10, 20 :: int]) 2 = Inr t
          \<and> fst (t (\<lambda>a slice. (True, slice @ [a])) []) = True
          \<and> snd (t (\<lambda>a slice. (True, slice @ [a])) []) = [10, 20])"
  using Take_run_answer [of 2 "\<lambda>a slice. (True, slice @ [a])" "[10, 20, 30 :: int]" "[]"]
        Take_run_answer [of 2 "\<lambda>a slice. (True, slice @ [a])" "[10, 20 :: int]" "[]"]
  by (simp add: fed_collect)

section \<open>Slices and their concatenation\<close>

lemma FromMany_collect: "FromMany vs (\<lambda>a slice. (True, slice @ [a])) acc = (True, acc @ vs)"
  by (induction vs arbitrary: acc) simp_all

lemma FromMany_append:
  "FromMany (as @ bs) yield s =
     (case FromMany as yield s of (r, s') \<Rightarrow> if \<not> r then (False, s') else FromMany bs yield s')"
  by (induction as arbitrary: s) (simp_all split: prod.splits)

lemma Concat_FromMany: "Concat (map FromMany vss) yield s = FromMany (concat vss) yield s"
  by (induction vss arbitrary: s) (simp_all add: FromMany_append split: prod.splits)

lemma Concat_FromMany_eq: "Concat (map FromMany vss) = FromMany (concat vss)"
  by (intro ext) (rule Concat_FromMany)

lemma length_concat_replicate: "length (concat (replicate k vs)) = k * length vs"
  by (induction k) simp_all

section \<open>Skip\<close>

text \<open>
  While the counter differs from \<open>n\<close>, one more increment brings it one step nearer to
  \<open>n\<close>, counted modulo \<open>2 ^ w\<close>.
\<close>

lemma unat_diff_Suc:
  fixes n skipped :: "'w::len word"
  assumes "skipped \<noteq> n"
  shows "unat (n - skipped) = Suc (unat (n - (skipped + 1)))"
proof -
  from assms have nz: "n - skipped \<noteq> 0" by simp
  have eq: "n - (skipped + 1) = n - skipped - 1" by simp
  have "unat (n - skipped - 1) = unat (n - skipped) - 1"
    using nz by (rule unat_minus_one)
  moreover have "0 < unat (n - skipped)"
    using nz by (simp add: unat_gt_0)
  ultimately show ?thesis
    unfolding eq by linarith
qed

lemma Skip_callback_run:
  fixes n :: "'w::len word"
  shows "FromMany vs
     (\<lambda>a (skipped, s).
        if skipped = n then (case yield a s of (r, s') \<Rightarrow> (r, (skipped, s')))
        else (True, (skipped + 1, s)))
     (skipped, s)
   = (case FromMany (drop (unat (n - skipped)) vs) yield s of
        (r, s') \<Rightarrow> (r, (skipped + of_nat (min (unat (n - skipped)) (length vs)), s')))"
proof (induction vs arbitrary: skipped s)
  case Nil
  show ?case by simp
next
  case (Cons v vs)
  show ?case
  proof (cases "skipped = n")
    case True
    with Cons.IH [of n] show ?thesis
      by (simp split: prod.splits)
  next
    case False
    from unat_diff_Suc [OF False] Cons.IH [of "skipped + 1" s] False show ?thesis
      by (simp add: add.assoc)
  qed
qed

text \<open>
  \<^verbatim>\<open>Skip(FromMany(vs...), n)\<close> runs as \<open>vs\<close> without its first \<open>unat n\<close> elements does. For a
  negative \<open>n\<close> of \<open>w\<close> bits \<open>unat n\<close> is \<open>2 ^ w - |n|\<close>, which is at least \<open>2 ^ (w - 1)\<close>.
\<close>

lemma Skip_FromMany:
  "Skip (FromMany vs) n yield s = FromMany (drop (unat n) vs) yield s"
  unfolding Skip_def using Skip_callback_run [of vs n yield 0 s]
  by (simp split: prod.splits)

lemma negative_unat:
  fixes n :: "'w::len word"
  assumes "n <s 0"
  shows "2 ^ (LENGTH('w) - 1) \<le> unat n"
proof -
  from assms have "sint n < 0" by (simp add: word_sless_alt)
  then have b: "bit (uint n) (LENGTH('w) - Suc 0)" by (simp add: sint_uint)
  have "(2::int) ^ (LENGTH('w) - Suc 0) \<le> uint n"
  proof (rule ccontr)
    assume "\<not> (2::int) ^ (LENGTH('w) - Suc 0) \<le> uint n"
    then have "uint n div 2 ^ (LENGTH('w) - Suc 0) = 0" by simp
    with b show False by (simp add: bit_iff_odd)
  qed
  then have "nat (2 ^ (LENGTH('w) - Suc 0)) \<le> nat (uint n)" by (rule nat_mono)
  then show ?thesis by (simp add: nat_power_eq)
qed

lemma unat_minus_one_32: "unat (- 1 :: 32 word) = 4294967295"
  by (simp add: unsigned_minus_1_eq_mask mask_eq_exp_minus_1)

text \<open>
  C9, as stated, at a concrete input on a target whose \<^verbatim>\<open>int\<close> has 32 bits. The upstream
  is \<^verbatim>\<open>Concat\<close> of 65537 sequences over one slice of 65535 zeros, followed by
  \<^verbatim>\<open>FromMany(7)\<close>, and \<open>n\<close> is -1. The counter is incremented on each of the
  \<open>65537 * 65535 = 2 ^ 32 - 1\<close> zeros, the last of these increments brings it to -1, and
  the 7 is yielded.
\<close>

theorem Skip_negative_counterexample:
  "ToSlice (Skip (Concat (replicate 65537 (FromMany (replicate 65535 (0::int))) @ [FromMany [7]]))
             (- 1 :: 32 word)) = [7]"
proof -
  have "Concat (replicate 65537 (FromMany (replicate 65535 (0::int))) @ [FromMany [7]])
        = (FromMany (concat (replicate 65537 (replicate 65535 (0::int))) @ [7])
            :: (int, 32 word \<times> int list) Seq)"
    using Concat_FromMany_eq [of "replicate 65537 (replicate 65535 (0::int)) @ [[7]]"]
    by simp
  then show ?thesis
    by (simp add: ToSlice_def Skip_FromMany FromMany_collect unat_minus_one_32
        length_concat_replicate)
qed

text \<open>
  C9, amended. For every negative \<open>n\<close> of \<open>w\<close> bits, every upstream that is a slice or a
  concatenation of slices with at most \<open>2 ^ w - |n|\<close> elements in all, and every consumer:
  the run of \<^verbatim>\<open>Skip\<close> returns true and leaves the consumer's state as it was (yield is
  never called), so \<^verbatim>\<open>ToSlice\<close> of it is empty. That bound is at least \<open>2 ^ (w - 1)\<close>,
  more than the length of any slice. \<^verbatim>\<open>Skip\<close> has no panic: it is a sequence for
  every \<open>n\<close>.
\<close>

theorem Skip_negative:
  fixes vs :: "'v list" and yield :: "('v, 's) yield" and n :: "'w::len word"
  assumes "n <s 0" and "length vs \<le> unat n" and "length (concat vss) \<le> unat n"
  shows "Skip (FromMany vs) n yield s = (True, s)
       \<and> ToSlice (Skip (FromMany vs) n) = []
       \<and> Skip (Concat (map FromMany vss)) n yield s = (True, s)
       \<and> ToSlice (Skip (Concat (map FromMany vss)) n) = []
       \<and> 2 ^ (LENGTH('w) - 1) \<le> unat n"
  using assms negative_unat [of n]
  by (simp add: Concat_FromMany_eq Skip_FromMany ToSlice_def)

theorem Skip_negative_witness:
  "(- 1 :: 64 word) <s 0 \<and> length [10, 20, 30 :: int] \<le> unat (- 1 :: 64 word)
   \<and> length (concat [[10, 20], [30 :: int]]) \<le> unat (- 1 :: 64 word)
   \<and> Skip (FromMany [10, 20, 30 :: int]) (- 1 :: 64 word) (\<lambda>a slice. (False, slice @ [a])) []
       = (True, [])
   \<and> ToSlice (Skip (FromMany [10, 20, 30 :: int]) (- 1 :: 64 word)) = []
   \<and> ToSlice (Skip (Concat [FromMany [10, 20], FromMany [30 :: int]]) (- 1 :: 64 word)) = []"
proof -
  have neg: "(- 1 :: 64 word) <s 0" by simp
  have len: "length [10, 20, 30 :: int] \<le> unat (- 1 :: 64 word)"
    by (simp add: unsigned_minus_1_eq_mask mask_eq_exp_minus_1)
  have len2: "length (concat [[10, 20], [30 :: int]]) \<le> unat (- 1 :: 64 word)"
    by (simp add: unsigned_minus_1_eq_mask mask_eq_exp_minus_1)
  from Skip_negative [OF neg len len2, of "\<lambda>a slice. (False, slice @ [a])" "[]"] neg len len2
  show ?thesis by simp
qed

section \<open>TakeWhile\<close>


text \<open>
  C3. The claim: once yield has answered false, \<^verbatim>\<open>TakeWhile\<close> never calls it again in
  that run. The code drops the answer of yield, so it does call it again: on the slice
  \<open>[1, 2]\<close> with a predicate that always holds, a consumer that answers false at every
  call and writes down what it is called with is called with 1 and then with 2.
\<close>

theorem TakeWhile_yields_after_stop:
  "TakeWhile (FromMany [1, 2 :: int]) (\<lambda>v. True) (\<lambda>a calls. (False, calls @ [a])) []
     = (True, [1, 2])"
  by (simp add: TakeWhile_def)



section \<open>Unique\<close>

text \<open>
  A run of \<^verbatim>\<open>Unique(FromMany(vs...))\<close> that finds \<open>seen\<close> in the set yields the elements
  of \<open>vs\<close> that are new to it and leaves \<open>seen \<union> set vs\<close> behind. The first run finds the
  empty set; the second finds \<open>set vs\<close> and yields nothing, for every \<open>vs\<close>.
\<close>

lemma unseen_all_seen: "set vs \<subseteq> seen \<Longrightarrow> unseen seen vs = []"
  by (induction vs arbitrary: seen) auto

lemma Unique_collect:
  "snd (Unique (FromMany vs)) (\<lambda>a slice. (True, slice @ [a])) (seen, acc)
   = (True, (seen \<union> set vs, acc @ unseen seen vs))"
  unfolding Unique_def MapFilter_def snd_conv
  by (induction vs arbitrary: seen acc) auto

lemma Unique_run:
  "ToSlice_of (snd (Unique (FromMany vs))) seen = (unseen seen vs, seen \<union> set vs)"
  by (simp add: ToSlice_of_def Unique_collect)

lemma Unique_twice:
  "(case Unique (FromMany vs) of (seen, u) \<Rightarrow>
      (case ToSlice_of u seen of (first, seen') \<Rightarrow> (first, fst (ToSlice_of u seen'))))
   = (unseen {} vs, [])"
  using Unique_run [of vs "{}"] Unique_run [of vs "set vs"]
  by (simp add: Unique_def unseen_all_seen split: prod.splits)

text \<open>
  C2. The claim: a second \<^verbatim>\<open>ToSlice\<close> on the same \<^verbatim>\<open>Unique(s)\<close> value returns the
  same slice as the first. On the code the set \<^verbatim>\<open>seen\<close> outlives the first run, so the
  second run finds every element in it: for \<open>[1, 1, 2, 3, 3]\<close> the first slice is
  \<open>[1, 2, 3]\<close> and the second is empty.
\<close>

theorem Unique_second_run_empty:
  "(case Unique (FromMany [1, 1, 2, 3, 3 :: int]) of (seen, u) \<Rightarrow>
      (case ToSlice_of u seen of (first, seen') \<Rightarrow>
         (first, fst (ToSlice_of u seen'))))
   = ([1, 2, 3], [])"
  by (simp add: Unique_def ToSlice_of_def MapFilter_def)

section \<open>Map over Filter, stopped by the consumer\<close>

lemma upto_kth_prefix: "upto_kth p k vs = take (length (upto_kth p k vs)) vs"
  by (induction vs arbitrary: k) auto

lemma upto_kth_zero: "upto_kth p 0 vs = []"
  by (cases vs) simp_all

lemma upto_kth_minimal: "0 < k \<Longrightarrow> length (filter p (butlast (upto_kth p k vs))) < k"
proof (induction vs arbitrary: k)
  case Nil
  then show ?case by simp
next
  case (Cons v vs)
  show ?case
  proof (cases "upto_kth p (if p v then k - 1 else k) vs = []")
    case True
    with Cons.prems show ?thesis by simp
  next
    case False
    show ?thesis
    proof (cases "p v")
      case pv: True
      with False have "0 < k - 1" using upto_kth_zero [of p vs] by (cases "k - 1") auto
      from Cons.IH [OF this] pv False Cons.prems show ?thesis by simp
    next
      case npv: False
      from Cons.IH [OF Cons.prems] npv False Cons.prems show ?thesis by simp
    qed
  qed
qed

lemma Map_Filter_Tap_run:
  "length got < k \<Longrightarrow>
   FromMany vs
     (\<lambda>a (produced, s).
        if p a
        then (case aside (stop_after k) (f a) (produced @ [a], s) of (r, s') \<Rightarrow>
                if \<not> r then (False, s') else (True, s'))
        else (True, (produced @ [a], s)))
     (log, got)
   = (length got + length (filter p vs) < k,
      (log @ upto_kth p (k - length got) vs,
       got @ map f (take (k - length got) (filter p vs))))"
proof (induction vs arbitrary: log got)
  case Nil
  then show ?case by simp
next
  case (Cons v vs)
  show ?case
  proof (cases "p v")
    case False
    with Cons.IH [OF Cons.prems, of "log @ [v]"] Cons.prems show ?thesis by simp
  next
    case True
    show ?thesis
    proof (cases "length got + 1 < k")
      case stop: False
      with Cons.prems have "k = length got + 1" by simp
      with True show ?thesis
        by (cases vs) (simp_all add: aside_def stop_after_def)
    next
      case go: True
      then have k: "k - length got = Suc (k - length (got @ [f v]))" by simp
      have "length (got @ [f v]) < k" using go by simp
      from Cons.IH [OF this, of "log @ [v]"] True go show ?thesis
        by (simp add: aside_def stop_after_def k del: upto_kth.simps take_Suc_Cons)
           (simp)
    qed
  qed
qed

text \<open>
  C8. For every slice \<open>vs\<close>, predicate \<open>p\<close>, function \<open>f\<close> and \<open>k > 0\<close>: when the consumer of
  \<^verbatim>\<open>Map(Filter(s, p), f)\<close> stops at its \<open>k\<close>-th element, with \<open>s\<close> the source
  \<^verbatim>\<open>FromMany(vs...)\<close> under watch, the consumer has got the first \<open>k\<close> accepted elements,
  transformed; what the source has produced is a prefix of \<open>vs\<close>; and that prefix without
  its last element holds fewer than \<open>k\<close> accepted elements, so no shorter prefix would have
  done. The run returns true only when \<open>vs\<close> holds fewer than \<open>k\<close> accepted elements.
\<close>

theorem Map_Filter_stops_upstream:
  assumes "0 < k"
  shows "case Map (Filter (Tap (FromMany vs)) p) f (aside (stop_after k)) ([], []) of
           (r, (produced, got)) \<Rightarrow>
             got = map f (take k (filter p vs))
           \<and> produced = take (length produced) vs
           \<and> length (filter p (butlast produced)) < k
           \<and> r = (length (filter p vs) < k)"
  using assms Map_Filter_Tap_run [of "[]" k vs p f "[]"] upto_kth_prefix [of p k vs]
    upto_kth_minimal [of k p vs]
  by (simp add: Map_def Filter_def Tap_def)

theorem Map_Filter_stops_upstream_witness:
  "(0::nat) < 2
   \<and> Map (Filter (Tap (FromMany [1, 2, 3, 4, 5, 6, 7, 8 :: int])) (\<lambda>v. v mod 2 = 0)) (\<lambda>v. v * 10)
       (aside (stop_after 2)) ([], [])
     = (False, ([1, 2, 3, 4], [20, 40]))"
  using Map_Filter_stops_upstream [where k = 2 and vs = "[1, 2, 3, 4, 5, 6, 7, 8 :: int]"
      and p = "\<lambda>v. v mod 2 = 0" and f = "\<lambda>v. v * 10"]
  by (simp add: Map_def Filter_def Tap_def aside_def stop_after_def)

section \<open>Chunked\<close>





section \<open>MergeFunc and Merge\<close>























end
